theory Spec2Isabelle
  imports Complex_Main "HOL-Library.Char_ord" "HOL-Library.List_Lexorder"
begin

section \<open>The database of the chess trainer\<close>

text \<open>
  The tables of \<^verbatim>\<open>database.py\<close> (\<^verbatim>\<open>init_db\<close>), one record per row type and one list per
  table, in the order a table scan visits the rows. Columns declared
  \<^verbatim>\<open>INTEGER\<close> hold Python ints (\<^typ>\<open>int\<close>, unbounded), columns declared \<^verbatim>\<open>TEXT\<close> or
  \<^verbatim>\<open>JSON\<close> hold strings; a column without \<^verbatim>\<open>NOT NULL\<close> whose writers may leave it empty is an
  option. \<^verbatim>\<open>time_taken REAL\<close> is only stored and never computed with.
\<close>

record position_row =
  pos_id :: int
  pos_fen :: string
  pos_turn :: string
  pos_fullmove_number :: int
  pos_position_classification :: "string option"
  pos_metadata :: "string option"

record move_row =
  mv_id :: int
  mv_position_id :: int
  mv_move :: string
  mv_uci :: string
  mv_score :: int
  mv_depth :: int
  mv_centipawn_loss :: int
  mv_classification :: string
  mv_principal_variation :: "string option"
  mv_tactics :: "string option"
  mv_position_impact :: "string option"
  mv_rank :: int

record user_move_row =
  um_id :: int
  um_user_id :: int
  um_position_id :: int
  um_move_id :: int
  um_time_taken :: real
  um_result :: string
  um_timestamp :: string
  um_openai_analysis :: "string option"

record user_settings_row =
  us_user_id :: int
  us_random_positions :: bool
  us_top_n_threshold :: int
  us_score_difference_threshold :: int
  us_theme :: string

text \<open>
  \<open>user_moves_seq\<close> is the \<^verbatim>\<open>sqlite_sequence\<close> entry of \<^verbatim>\<open>user_moves\<close>, whose key is
  \<^verbatim>\<open>AUTOINCREMENT\<close>: the largest row id the table has ever handed out.
\<close>

record database =
  positions :: "position_row list"
  moves :: "move_row list"
  user_moves :: "user_move_row list"
  user_settings :: "user_settings_row list"
  user_moves_seq :: int

section \<open>Connections, cursors and exceptions\<close>

text \<open>
  The exceptions the modelled code can meet, each with the argument it is raised with: a
  message, or the missing key of a \<^verbatim>\<open>KeyError\<close>. \<^verbatim>\<open>ProgrammingError\<close> is a subclass of
  \<^verbatim>\<open>sqlite3.Error\<close>; the others are not. \<^verbatim>\<open>str\<close> of an exception is its message, and the
  quoted key for a \<^verbatim>\<open>KeyError\<close>.
\<close>

datatype error =
  ProgrammingError string
| KeyError string
| TypeError string
| JSONDecodeError string

definition is_sqlite_error :: "error \<Rightarrow> bool" where
  "is_sqlite_error e = (case e of ProgrammingError _ \<Rightarrow> True | _ \<Rightarrow> False)"

definition str_error :: "error \<Rightarrow> string" where
  "str_error e =
     (case e of ProgrammingError m \<Rightarrow> m | KeyError k \<Rightarrow> CHR 0x27 # k @ [CHR 0x27]
      | TypeError m \<Rightarrow> m | JSONDecodeError m \<Rightarrow> m)"

definition closed_database :: error where
  "closed_database = ProgrammingError ''Cannot operate on a closed database.''"

text \<open>
  A connection of \<^verbatim>\<open>sqlite3\<close>: the committed content of the database file, the content the
  connection sees inside its open transaction, and whether \<^verbatim>\<open>close\<close> has been called. A
  statement on a closed connection raises \<^verbatim>\<open>sqlite3.ProgrammingError\<close>; closing discards
  what was not committed.
\<close>

record connection =
  committed :: database
  working :: database
  is_closed :: bool

type_synonym 'a action = "connection \<Rightarrow> (error + 'a) \<times> connection"

definition get_db_connection :: "database \<Rightarrow> connection" where
  "get_db_connection db = \<lparr>committed = db, working = db, is_closed = False\<rparr>"

definition db_return :: "'a \<Rightarrow> 'a action" where
  "db_return x c = (Inr x, c)"

definition db_bind :: "'a action \<Rightarrow> ('a \<Rightarrow> 'b action) \<Rightarrow> 'b action" where
  "db_bind m f c = (case m c of (Inl e, c') \<Rightarrow> (Inl e, c') | (Inr x, c') \<Rightarrow> f x c')"

definition db_lift :: "error + 'a \<Rightarrow> 'a action" where
  "db_lift r c = (r, c)"

definition db_catch :: "'a action \<Rightarrow> (error \<Rightarrow> 'a action) \<Rightarrow> 'a action" where
  "db_catch m h c = (case m c of (Inl e, c') \<Rightarrow> h e c' | (Inr x, c') \<Rightarrow> (Inr x, c'))"

text \<open>\<^verbatim>\<open>cursor.execute\<close> of a \<^verbatim>\<open>SELECT\<close> followed by the fetch: reads, changes nothing.\<close>

definition execute_select :: "(database \<Rightarrow> 'a) \<Rightarrow> 'a action" where
  "execute_select q c =
     (if is_closed c then (Inl closed_database, c) else (Inr (q (working c)), c))"

text \<open>\<^verbatim>\<open>cursor.execute\<close> of an \<^verbatim>\<open>INSERT\<close>, \<^verbatim>\<open>UPDATE\<close> or \<^verbatim>\<open>DELETE\<close>: changes the transaction.\<close>

definition execute_write :: "(database \<Rightarrow> 'a \<times> database) \<Rightarrow> 'a action" where
  "execute_write f c =
     (if is_closed c then (Inl closed_database, c)
      else (case f (working c) of (x, db') \<Rightarrow> (Inr x, c\<lparr>working := db'\<rparr>)))"

definition commit :: "unit action" where
  "commit c =
     (if is_closed c then (Inl closed_database, c) else (Inr (), c\<lparr>committed := working c\<rparr>))"

definition rollback :: "unit action" where
  "rollback c =
     (if is_closed c then (Inl closed_database, c) else (Inr (), c\<lparr>working := committed c\<rparr>))"

definition close :: "unit action" where
  "close c = (Inr (), c\<lparr>working := committed c, is_closed := True\<rparr>)"

text \<open>
  A function of the program that opens its own connection: it runs on the database file and
  leaves the file as the connection committed it, whether it returns or raises.
\<close>

definition with_connection :: "'a action \<Rightarrow> database \<Rightarrow> (error + 'a) \<times> database" where
  "with_connection m db = (case m (get_db_connection db) of (r, c) \<Rightarrow> (r, committed c))"

section \<open>Python values\<close>

text \<open>\<^verbatim>\<open>str\<close> of an int, as the f-strings of the program format it.\<close>

definition digit_char :: "nat \<Rightarrow> char" where
  "digit_char d = char_of (48 + d)"

fun str_nat :: "nat \<Rightarrow> string" where
  "str_nat n = (if n < 10 then [digit_char n] else str_nat (n div 10) @ [digit_char (n mod 10)])"

declare str_nat.simps [simp del]

definition str_int :: "int \<Rightarrow> string" where
  "str_int i = (if i < 0 then CHR ''-'' # str_nat (nat (- i)) else str_nat (nat i))"

text \<open>Truth value of an optional int: \<^verbatim>\<open>None\<close> and \<^verbatim>\<open>0\<close> are false.\<close>

definition truthy :: "int option \<Rightarrow> bool" where
  "truthy v = (case v of None \<Rightarrow> False | Some n \<Rightarrow> n \<noteq> 0)"

text \<open>The aggregates \<^verbatim>\<open>MAX\<close> and \<^verbatim>\<open>MIN\<close>: \<^verbatim>\<open>NULL\<close> over no rows.\<close>

definition sql_max :: "int list \<Rightarrow> int option" where
  "sql_max xs = (case xs of [] \<Rightarrow> None | y # ys \<Rightarrow> Some (fold max ys y))"

definition sql_min :: "int list \<Rightarrow> int option" where
  "sql_min xs = (case xs of [] \<Rightarrow> None | y # ys \<Rightarrow> Some (fold min ys y))"

section \<open>Move validation (\<^verbatim>\<open>training.validate_move\<close>)\<close>

text \<open>
  The dict \<^verbatim>\<open>validate_move\<close> returns has one of two shapes: the short one of the guard, with
  the keys \<^verbatim>\<open>success\<close> and \<^verbatim>\<open>message\<close> only, and the full one.
\<close>

datatype validation =
  is_Short: Short (v_success: bool) (v_message: string)
| is_Full: Full (v_success: bool) (v_move_id: int) (v_rank: int) (v_score: int)
       (v_classification: string) (v_centipawn_loss: int) (v_score_difference: int)
       (v_result: string) (v_message: string)

definition select_settings :: "int \<Rightarrow> database \<Rightarrow> user_settings_row option" where
  "select_settings user_id db = find (\<lambda>s. us_user_id s = user_id) (user_settings db)"

text \<open>
  A query on \<^verbatim>\<open>moves\<close> with \<^verbatim>\<open>WHERE position_id = ?\<close> is answered through the index of
  \<^verbatim>\<open>UNIQUE(position_id, move)\<close>: it visits the rows of the position in the order of their
  move text, compared byte by byte. \<^verbatim>\<open>fetchone\<close> takes the first row visited that meets the
  rest of the condition.
\<close>

definition moves_of_position :: "int \<Rightarrow> database \<Rightarrow> move_row list" where
  "moves_of_position position_id db =
     sort_key mv_move (filter (\<lambda>m. mv_position_id m = position_id) (moves db))"

definition select_move :: "int \<Rightarrow> string \<Rightarrow> database \<Rightarrow> move_row option" where
  "select_move position_id selected_move db =
     find (\<lambda>m. mv_move m = selected_move) (moves_of_position position_id db)"

definition select_top_move :: "int \<Rightarrow> database \<Rightarrow> move_row option" where
  "select_top_move position_id db =
     find (\<lambda>m. mv_rank m = 1) (moves_of_position position_id db)"

definition validate_move :: "int \<Rightarrow> string \<Rightarrow> int \<Rightarrow> database \<Rightarrow> (error + validation) \<times> database" where
  "validate_move position_id selected_move user_id =
     with_connection
      (db_bind (execute_select (select_settings user_id)) (\<lambda>settings.
       let top_n_threshold = (case settings of Some s \<Rightarrow> us_top_n_threshold s | None \<Rightarrow> 3);
           score_difference_threshold =
             (case settings of Some s \<Rightarrow> us_score_difference_threshold s | None \<Rightarrow> 10)
       in
       db_bind (execute_select (select_move position_id selected_move)) (\<lambda>selected_move_data.
       db_bind (execute_select (select_top_move position_id)) (\<lambda>top_move.
       case (selected_move_data, top_move) of
         (Some sel, Some best) \<Rightarrow>
           (let move_id = mv_id sel;
                rank = mv_rank sel;
                score_difference = \<bar>mv_score sel - mv_score best\<bar>;
                is_success = (rank \<le> top_n_threshold \<and> score_difference \<le> score_difference_threshold);
                result = (if is_success then ''pass'' else ''fail'')
            in
            db_bind close (\<lambda>_.
            db_return (Full is_success move_id rank (mv_score sel) (mv_classification sel)
              (mv_centipawn_loss sel) score_difference result
              (''Move ranked #'' @ str_int rank @
                 (if rank \<le> top_n_threshold \<and> \<not> is_success
                  then '', but score difference too high: '' @ str_int score_difference
                  else '''')))))
       | _ \<Rightarrow>
           db_bind close (\<lambda>_.
           db_return (Short False ''Move not found or position invalid''))))))"

section \<open>Recording attempts (\<^verbatim>\<open>training.record_user_move\<close>, \<^verbatim>\<open>training.save_openai_analysis\<close>)\<close>

text \<open>
  The \<^verbatim>\<open>INSERT\<close> into \<^verbatim>\<open>user_moves\<close>. The key is \<^verbatim>\<open>AUTOINCREMENT\<close>: one more than the
  largest id the table holds or has ever handed out. \<^verbatim>\<open>timestamp\<close> defaults to
  \<^verbatim>\<open>CURRENT_TIMESTAMP\<close>, the clock reading \<open>now\<close>; \<^verbatim>\<open>openai_analysis\<close> starts as \<^verbatim>\<open>NULL\<close>.
  The pair returned is \<^verbatim>\<open>cursor.lastrowid\<close> and the changed database.
\<close>

definition insert_user_move ::
  "int \<Rightarrow> int \<Rightarrow> int \<Rightarrow> real \<Rightarrow> string \<Rightarrow> string \<Rightarrow> database \<Rightarrow> int \<times> database" where
  "insert_user_move user_id position_id move_id time_taken result now db =
     (let lastrowid = fold max (map um_id (user_moves db)) (user_moves_seq db) + 1
      in (lastrowid,
          db\<lparr>user_moves := user_moves db @
                [\<lparr>um_id = lastrowid, um_user_id = user_id, um_position_id = position_id,
                  um_move_id = move_id, um_time_taken = time_taken, um_result = result,
                  um_timestamp = now, um_openai_analysis = None\<rparr>],
             user_moves_seq := lastrowid\<rparr>))"

definition record_user_move ::
  "int \<Rightarrow> int \<Rightarrow> int \<Rightarrow> real \<Rightarrow> string \<Rightarrow> string \<Rightarrow> database \<Rightarrow> (error + int) \<times> database" where
  "record_user_move user_id position_id move_id time_taken result now =
     with_connection
      (db_bind (execute_write (insert_user_move user_id position_id move_id time_taken result now))
         (\<lambda>move_record_id.
       db_bind commit (\<lambda>_.
       db_bind close (\<lambda>_.
       db_return move_record_id))))"

definition update_openai_analysis :: "string \<Rightarrow> int \<Rightarrow> database \<Rightarrow> unit \<times> database" where
  "update_openai_analysis analysis_text move_record_id db =
     ((), db\<lparr>user_moves :=
            map (\<lambda>r. if um_id r = move_record_id
                      then r\<lparr>um_openai_analysis := Some analysis_text\<rparr> else r)
                (user_moves db)\<rparr>)"

definition save_openai_analysis :: "int \<Rightarrow> string \<Rightarrow> database \<Rightarrow> (error + bool) \<times> database" where
  "save_openai_analysis move_record_id analysis_text =
     with_connection
      (db_bind (execute_write (update_openai_analysis analysis_text move_record_id)) (\<lambda>_.
       db_bind commit (\<lambda>_.
       db_bind close (\<lambda>_.
       db_return True))))"

section \<open>Clearing the catalog (\<^verbatim>\<open>jsonl_loader.clear_positions\<close>)\<close>

definition count_user_moves :: "database \<Rightarrow> int" where
  "count_user_moves db = int (length (user_moves db))"

definition delete_moves :: "database \<Rightarrow> unit \<times> database" where
  "delete_moves db = ((), db\<lparr>moves := []\<rparr>)"

definition delete_positions :: "database \<Rightarrow> unit \<times> database" where
  "delete_positions db = ((), db\<lparr>positions := []\<rparr>)"

definition clear_positions :: "database \<Rightarrow> (error + bool \<times> string) \<times> database" where
  "clear_positions =
     with_connection
      (db_catch
        (db_bind (execute_select count_user_moves) (\<lambda>user_moves_count.
         if user_moves_count > 0 then
           db_bind close (\<lambda>_.
           db_return (False, ''Cannot clear positions: '' @ str_int user_moves_count @
                             '' user moves would be lost. Export user data first.''))
         else
           db_bind (execute_write delete_moves) (\<lambda>_.
           db_bind (execute_write delete_positions) (\<lambda>_.
           db_bind commit (\<lambda>_.
           db_bind close (\<lambda>_.
           db_return (True, ''All positions and moves cleared successfully.'')))))))
        (\<lambda>e. if is_sqlite_error e then
                db_bind rollback (\<lambda>_.
                db_bind close (\<lambda>_.
                db_return (False, ''Database error: '' @ str_error e)))
              else
                db_bind close (\<lambda>_.
                db_return (False, ''Error clearing positions: '' @ str_error e))))"

section \<open>The position catalog (\<^verbatim>\<open>training.get_position_by_id\<close>, \<^verbatim>\<open>training.get_sequential_position\<close>)\<close>

text \<open>
  The dicts \<^verbatim>\<open>get_position_by_id\<close> builds. \<^verbatim>\<open>json.loads\<close> is a parameter \<open>loads\<close> of the
  model, from the column (a text or \<^verbatim>\<open>NULL\<close>) to the parsed value of type \<open>'j\<close> or the
  exception it raises. The id of a move dict is read by the caller with \<^verbatim>\<open>.get('id')\<close>,
  which gives \<^verbatim>\<open>None\<close> for a dict without the key, so it is an option here.
\<close>

record 'j move_dict =
  md_id :: "int option"
  md_move :: string
  md_uci :: string
  md_score :: int
  md_depth :: int
  md_centipawn_loss :: int
  md_classification :: string
  md_principal_variation :: "string option"
  md_tactics :: 'j
  md_position_impact :: 'j
  md_rank :: int

record 'j position_dict =
  pd_id :: int
  pd_fen :: string
  pd_turn :: string
  pd_fullmove_number :: int
  pd_position_classification :: 'j
  pd_metadata :: 'j
  pd_moves :: "'j move_dict list"

definition select_position :: "int \<Rightarrow> database \<Rightarrow> position_row option" where
  "select_position position_id db = find (\<lambda>p. pos_id p = position_id) (positions db)"

text \<open>
  \<^verbatim>\<open>SELECT ... FROM moves WHERE position_id = ? ORDER BY rank\<close>, fetched whole: the rows of
  the position by rank, rows of equal rank in the order the index visits them.
\<close>

definition select_moves_by_rank :: "int \<Rightarrow> database \<Rightarrow> move_row list" where
  "select_moves_by_rank position_id db = sort_key mv_rank (moves_of_position position_id db)"

text \<open>The loop over the fetched rows that fills \<^verbatim>\<open>moves_data\<close>.\<close>

fun moves_data :: "(string option \<Rightarrow> error + 'j) \<Rightarrow> move_row list \<Rightarrow> error + 'j move_dict list" where
  "moves_data loads [] = Inr []"
| "moves_data loads (m # ms) =
     (case loads (mv_tactics m) of
        Inl e \<Rightarrow> Inl e
      | Inr tactics \<Rightarrow>
          (case loads (mv_position_impact m) of
             Inl e \<Rightarrow> Inl e
           | Inr position_impact \<Rightarrow>
               (case moves_data loads ms of
                  Inl e \<Rightarrow> Inl e
                | Inr rest \<Rightarrow>
                    Inr (\<lparr>md_id = Some (mv_id m), md_move = mv_move m, md_uci = mv_uci m,
                          md_score = mv_score m, md_depth = mv_depth m,
                          md_centipawn_loss = mv_centipawn_loss m,
                          md_classification = mv_classification m,
                          md_principal_variation = mv_principal_variation m,
                          md_tactics = tactics, md_position_impact = position_impact,
                          md_rank = mv_rank m\<rparr> # rest))))"

definition get_position_by_id ::
  "(string option \<Rightarrow> error + 'j) \<Rightarrow> int \<Rightarrow> database \<Rightarrow> (error + 'j position_dict option) \<times> database" where
  "get_position_by_id loads position_id =
     with_connection
      (db_bind (execute_select (select_position position_id)) (\<lambda>position.
       case position of
         None \<Rightarrow> db_bind close (\<lambda>_. db_return None)
       | Some p \<Rightarrow>
           db_bind (db_lift (loads (pos_position_classification p))) (\<lambda>position_classification.
           db_bind (db_lift (loads (pos_metadata p))) (\<lambda>metadata.
           db_bind (execute_select (select_moves_by_rank position_id)) (\<lambda>rows.
           db_bind (db_lift (moves_data loads rows)) (\<lambda>moves_data.
           db_bind close (\<lambda>_.
           db_return (Some \<lparr>pd_id = pos_id p, pd_fen = pos_fen p, pd_turn = pos_turn p,
                             pd_fullmove_number = pos_fullmove_number p,
                             pd_position_classification = position_classification,
                             pd_metadata = metadata, pd_moves = moves_data\<rparr>))))))))"

definition select_last_position :: "int \<Rightarrow> database \<Rightarrow> int option" where
  "select_last_position user_id db =
     sql_max (map um_position_id (filter (\<lambda>r. um_user_id r = user_id) (user_moves db)))"

definition select_next_position :: "int \<Rightarrow> database \<Rightarrow> int option" where
  "select_next_position last_position_id db =
     sql_min (filter (\<lambda>i. i > last_position_id) (map pos_id (positions db)))"

definition select_first_position :: "database \<Rightarrow> int option" where
  "select_first_position db = sql_min (map pos_id (positions db))"

text \<open>
  \<^verbatim>\<open>get_sequential_position\<close> closes its connection after the second query and runs the
  third, the one of the wrap-around, on the cursor of that closed connection. It then calls
  \<^verbatim>\<open>get_position_by_id\<close>, which opens a connection of its own.
\<close>

definition get_sequential_position ::
  "(string option \<Rightarrow> error + 'j) \<Rightarrow> int \<Rightarrow> database \<Rightarrow> (error + 'j position_dict option) \<times> database" where
  "get_sequential_position loads user_id db =
     (case with_connection
        (db_bind (execute_select (select_last_position user_id)) (\<lambda>result.
         let last_position_id = (if truthy result then (case result of Some n \<Rightarrow> n | None \<Rightarrow> 0) else 0)
         in
         db_bind (execute_select (select_next_position last_position_id)) (\<lambda>result.
         let next_position_id = (if truthy result then result else None)
         in
         db_bind close (\<lambda>_.
         if \<not> truthy next_position_id then
           db_bind (execute_select select_first_position) (\<lambda>result.
           db_return result)
         else db_return next_position_id)))) db
      of
        (Inl e, db') \<Rightarrow> (Inl e, db')
      | (Inr next_position_id, db') \<Rightarrow>
          (case next_position_id of
             Some n \<Rightarrow> (if n \<noteq> 0 then get_position_by_id loads n db' else (Inr None, db'))
           | None \<Rightarrow> (Inr None, db')))"

section \<open>Submitting a move (\<^verbatim>\<open>app.py\<close>, the submit button of the training page)\<close>




text \<open>
  The secondary query of the unanalyzed branch:
  \<^verbatim>\<open>SELECT id FROM moves WHERE position_id = ? AND move = ? LIMIT 1\<close> on a connection of its own.
\<close>

definition find_move_id :: "int \<Rightarrow> string \<Rightarrow> database \<Rightarrow> (error + int option) \<times> database" where
  "find_move_id position_id move =
     with_connection
      (db_bind (execute_select (select_move position_id move)) (\<lambda>result.
       let move_id = (case result of Some r \<Rightarrow> Some (mv_id r) | None \<Rightarrow> None)
       in
       db_bind close (\<lambda>_.
       db_return move_id)))"


section \<open>Example data\<close>

text \<open>
  Position 1 with the candidates e4 (rank 1, score 30), d4 (rank 2, score 25) and Nf3
  (rank 3, score 10); position 2 with no candidates; the users 7, 8, 10 and 11 with the thresholds (3, 15),
  (2, 10), (3, 25) and (1, 10).
\<close>

definition example_position :: "int \<Rightarrow> string \<Rightarrow> position_row" where
  "example_position i fen =
     \<lparr>pos_id = i, pos_fen = fen, pos_turn = ''white'', pos_fullmove_number = 1,
      pos_position_classification = Some ''[]'', pos_metadata = Some ''{}''\<rparr>"

definition example_move :: "int \<Rightarrow> int \<Rightarrow> string \<Rightarrow> int \<Rightarrow> int \<Rightarrow> move_row" where
  "example_move i position_id move score rank =
     \<lparr>mv_id = i, mv_position_id = position_id, mv_move = move, mv_uci = move,
      mv_score = score, mv_depth = 20, mv_centipawn_loss = 30 - score,
      mv_classification = ''good'', mv_principal_variation = None,
      mv_tactics = Some ''[]'', mv_position_impact = Some ''{}'', mv_rank = rank\<rparr>"

definition example_attempt :: "int \<Rightarrow> int \<Rightarrow> int \<Rightarrow> int \<Rightarrow> user_move_row" where
  "example_attempt i user_id position_id move_id =
     \<lparr>um_id = i, um_user_id = user_id, um_position_id = position_id, um_move_id = move_id,
      um_time_taken = 5, um_result = ''pass'', um_timestamp = ''2025-01-01 00:00:00'',
      um_openai_analysis = None\<rparr>"

definition example_settings :: "int \<Rightarrow> int \<Rightarrow> int \<Rightarrow> user_settings_row" where
  "example_settings user_id top_n score_difference =
     \<lparr>us_user_id = user_id, us_random_positions = False, us_top_n_threshold = top_n,
      us_score_difference_threshold = score_difference, us_theme = ''default''\<rparr>"

definition example_db :: database where
  "example_db =
     \<lparr>positions = [example_position 1 ''fen1'', example_position 2 ''fen2''],
      moves = [example_move 1 1 ''e4'' 30 1, example_move 2 1 ''d4'' 25 2,
               example_move 3 1 ''Nf3'' 10 3],
      user_moves = [],
      user_settings = [example_settings 7 3 15, example_settings 8 2 10,
                       example_settings 10 3 25, example_settings 11 1 10],
      user_moves_seq = 0\<rparr>"

text \<open>The same database after user 7 has attempted positions 1 and 2, the whole catalog.\<close>

definition example_db_attempted :: database where
  "example_db_attempted =
     example_db\<lparr>user_moves := [example_attempt 1 7 1 1, example_attempt 2 7 2 1],
                user_moves_seq := 2\<rparr>"

text \<open>
  A database as \<^verbatim>\<open>load_positions_from_jsonl\<close> leaves it after a line for position 5 whose
  board is that of position 1: \<^verbatim>\<open>INSERT OR IGNORE\<close> drops the position row on \<^verbatim>\<open>UNIQUE(fen)\<close>
  and the move of the line is inserted all the same. Foreign keys are not enforced.
\<close>

definition example_db_orphan :: database where
  "example_db_orphan =
     example_db\<lparr>positions := [example_position 1 ''fen1''],
                moves := [example_move 1 1 ''e4'' 30 1, example_move 2 5 ''e4'' 30 1]\<rparr>"

text \<open>A stand-in for \<^verbatim>\<open>json.loads\<close> that keeps the text and raises on \<^verbatim>\<open>NULL\<close>.\<close>

definition example_loads :: "string option \<Rightarrow> error + string" where
  "example_loads s =
     (case s of None \<Rightarrow> Inl (TypeError ''the JSON object must be str, bytes or bytearray, not NoneType'')
      | Some t \<Rightarrow> Inr t)"



section \<open>Running an action on an open connection\<close>

lemmas action_defs = with_connection_def db_bind_def db_return_def db_lift_def db_catch_def
  execute_select_def execute_write_def commit_def rollback_def close_def get_db_connection_def

lemma validate_move_found:
  assumes "select_move position_id selected_move db = Some sel"
    and "select_top_move position_id db = Some best"
  shows "validate_move position_id selected_move user_id db =
    (let top_n = (case select_settings user_id db of Some s \<Rightarrow> us_top_n_threshold s | None \<Rightarrow> 3);
         sd = (case select_settings user_id db of Some s \<Rightarrow> us_score_difference_threshold s | None \<Rightarrow> 10);
         diff = \<bar>mv_score sel - mv_score best\<bar>;
         ok = (mv_rank sel \<le> top_n \<and> diff \<le> sd)
     in (Inr (Full ok (mv_id sel) (mv_rank sel) (mv_score sel) (mv_classification sel)
           (mv_centipawn_loss sel) diff (if ok then ''pass'' else ''fail'')
           (''Move ranked #'' @ str_int (mv_rank sel) @
             (if mv_rank sel \<le> top_n \<and> \<not> ok
              then '', but score difference too high: '' @ str_int diff else ''''))), db))"
  using assms by (simp add: validate_move_def action_defs Let_def)

lemma validate_move_not_found:
  assumes "select_move position_id selected_move db = None \<or> select_top_move position_id db = None"
  shows "validate_move position_id selected_move user_id db =
     (Inr (Short False ''Move not found or position invalid''), db)"
  using assms by (auto simp add: validate_move_def action_defs Let_def split: option.splits)

lemma find_unique:
  assumes "x \<in> set xs" and "P x" and "\<forall>y\<in>set xs. P y \<longrightarrow> y = x"
  shows "find P xs = Some x"
  using assms
proof (induction xs)
  case Nil
  then show ?case by simp
next
  case (Cons a xs)
  show ?case
  proof (cases "P a")
    case True
    with Cons.prems(3) have "a = x" by simp
    with True show ?thesis by simp
  next
    case False
    with Cons.prems(1,2) have mem: "x \<in> set xs" by auto
    have "\<forall>y\<in>set xs. P y \<longrightarrow> y = x"
      using Cons.prems(3) by (meson list.set_intros(2))
    with mem Cons.prems(2) have "find P xs = Some x"
      by (rule Cons.IH)
    with False show ?thesis by simp
  qed
qed

lemma set_moves_of_position:
  "set (moves_of_position position_id db) =
     {m \<in> set (moves db). mv_position_id m = position_id}"
  by (auto simp add: moves_of_position_def)

lemma sorted_moves_of_position:
  "sorted (map mv_move (moves_of_position position_id db))"
  by (simp add: moves_of_position_def)

lemma find_sorted_least:
  fixes f :: "'a \<Rightarrow> 'b::linorder"
  assumes "sorted (map f xs)" and "find P xs = Some x" and "y \<in> set xs" and "P y"
  shows "f x \<le> f y"
  using assms
proof (induction xs)
  case Nil
  then show ?case by simp
next
  case (Cons a xs)
  show ?case
  proof (cases "P a")
    case True
    with Cons.prems(2) have "x = a" by simp
    with Cons.prems(1,3) show ?thesis by auto
  next
    case False
    with Cons.prems(2) have found: "find P xs = Some x" by simp
    from False Cons.prems(3,4) have mem: "y \<in> set xs" by auto
    from Cons.prems(1) have "sorted (map f xs)" by simp
    from Cons.IH [OF this found mem Cons.prems(4)] show ?thesis .
  qed
qed

lemma unique_move_row:
  assumes "distinct (map (\<lambda>m. (mv_position_id m, mv_move m)) (moves db))"
    and "x \<in> set (moves db)" and "y \<in> set (moves db)"
    and "mv_position_id x = mv_position_id y" and "mv_move x = mv_move y"
  shows "x = y"
proof -
  have "inj_on (\<lambda>m. (mv_position_id m, mv_move m)) (set (moves db))"
    using assms(1) by (simp add: distinct_map)
  from inj_onD [OF this, of x y] assms(2-5) show ?thesis by simp
qed

lemma select_move_unique:
  assumes "distinct (map (\<lambda>m. (mv_position_id m, mv_move m)) (moves db))"
    and "r \<in> set (moves db)"
  shows "select_move (mv_position_id r) (mv_move r) db = Some r"
proof -
  have "y = r"
    if "y \<in> set (moves_of_position (mv_position_id r) db)" and "mv_move y = mv_move r" for y
    using that unique_move_row [OF assms(1), of y r] assms(2)
    by (simp add: set_moves_of_position)
  then have uniq: "\<forall>y\<in>set (moves_of_position (mv_position_id r) db).
                     mv_move y = mv_move r \<longrightarrow> y = r"
    by blast
  show ?thesis
    unfolding select_move_def
  proof (rule find_unique)
    show "r \<in> set (moves_of_position (mv_position_id r) db)"
      using assms(2) by (simp add: set_moves_of_position)
    show "mv_move r = mv_move r" by simp
    show "\<forall>y\<in>set (moves_of_position (mv_position_id r) db). mv_move y = mv_move r \<longrightarrow> y = r"
      by (rule uniq)
  qed
qed

lemma select_top_move_unique:
  assumes "distinct (map mv_rank (filter (\<lambda>m. mv_position_id m = position_id) (moves db)))"
    and "r \<in> set (moves db)" and "mv_position_id r = position_id" and "mv_rank r = 1"
  shows "select_top_move position_id db = Some r"
proof -
  have inj: "inj_on mv_rank (set (filter (\<lambda>m. mv_position_id m = position_id) (moves db)))"
    using assms(1) by (simp add: distinct_map)
  have "y = r"
    if "y \<in> set (moves_of_position position_id db)" and "mv_rank y = 1" for y
    using inj_onD [OF inj, of y r] that assms(2-4) by (simp add: set_moves_of_position)
  then have uniq: "\<forall>y\<in>set (moves_of_position position_id db). mv_rank y = 1 \<longrightarrow> y = r"
    by blast
  show ?thesis
    unfolding select_top_move_def
  proof (rule find_unique)
    show "r \<in> set (moves_of_position position_id db)"
      using assms(2,3) by (simp add: set_moves_of_position)
    show "mv_rank r = 1" by fact
    show "\<forall>y\<in>set (moves_of_position position_id db). mv_rank y = 1 \<longrightarrow> y = r"
      by (rule uniq)
  qed
qed

lemma select_top_move_first:
  assumes "distinct (map (\<lambda>m. (mv_position_id m, mv_move m)) (moves db))"
    and "best \<in> set (moves db)" and "mv_position_id best = position_id" and "mv_rank best = 1"
    and "\<forall>m\<in>set (moves db).
           mv_position_id m = position_id \<and> mv_rank m = 1 \<longrightarrow> mv_move best \<le> mv_move m"
  shows "select_top_move position_id db = Some best"
proof -
  have mem: "best \<in> set (moves_of_position position_id db)"
    using assms(2,3) by (simp add: set_moves_of_position)
  with assms(4) have "find (\<lambda>m. mv_rank m = 1) (moves_of_position position_id db) \<noteq> None"
    by (auto simp add: find_None_iff)
  then obtain x where x: "find (\<lambda>m. mv_rank m = 1) (moves_of_position position_id db) = Some x"
    by auto
  then have x_rank: "mv_rank x = 1" and x_mem: "x \<in> set (moves_of_position position_id db)"
    by (auto simp add: find_Some_iff)
  from x_mem have x_row: "x \<in> set (moves db)" and x_pos: "mv_position_id x = position_id"
    by (simp_all add: set_moves_of_position)
  have "mv_move x \<le> mv_move best"
    using find_sorted_least [OF sorted_moves_of_position x mem assms(4)] .
  moreover have "mv_move best \<le> mv_move x"
    using assms(5) x_row x_pos x_rank by blast
  ultimately have "mv_move x = mv_move best" by simp
  with unique_move_row [OF assms(1) x_row assms(2)] x_pos assms(3) have "x = best" by simp
  with x show ?thesis by (simp add: select_top_move_def)
qed

lemma select_settings_row:
  assumes "distinct (map us_user_id (user_settings db))"
    and "st \<in> set (user_settings db)"
  shows "select_settings (us_user_id st) db = Some st"
proof -
  have inj: "inj_on us_user_id (set (user_settings db))"
    using assms(1) by (simp add: distinct_map)
  have "y = st" if "y \<in> set (user_settings db)" and "us_user_id y = us_user_id st" for y
    using inj_onD [OF inj, of y st] that assms(2) by simp
  then have uniq: "\<forall>y\<in>set (user_settings db). us_user_id y = us_user_id st \<longrightarrow> y = st"
    by blast
  show ?thesis
    unfolding select_settings_def
  proof (rule find_unique)
    show "st \<in> set (user_settings db)" by fact
    show "us_user_id st = us_user_id st" by simp
    show "\<forall>y\<in>set (user_settings db). us_user_id y = us_user_id st \<longrightarrow> y = st"
      by (rule uniq)
  qed
qed

lemma select_move_absent:
  assumes "\<forall>r\<in>set (moves db). \<not> (mv_position_id r = position_id \<and> mv_move r = selected_move)"
  shows "select_move position_id selected_move db = None"
  using assms by (auto simp add: select_move_def find_None_iff set_moves_of_position)

lemma select_top_move_absent:
  assumes "\<forall>r\<in>set (moves db). \<not> (mv_position_id r = position_id \<and> mv_rank r = 1)"
  shows "select_top_move position_id db = None"
  using assms by (auto simp add: select_top_move_def find_None_iff set_moves_of_position)

lemma example_moves_of_position:
  "moves_of_position 1 example_db =
     [example_move 3 1 ''Nf3'' 10 3, example_move 2 1 ''d4'' 25 2, example_move 1 1 ''e4'' 30 1]"
  by (simp add: moves_of_position_def example_db_def example_move_def)

lemma select_settings_absent:
  "user_id \<notin> us_user_id ` set (user_settings db) \<Longrightarrow> select_settings user_id db = None"
  by (auto simp add: select_settings_def find_None_iff)

lemma validate_move_depends:
  assumes "moves db' = moves db"
    and "(case select_settings user_id' db' of Some s \<Rightarrow> us_top_n_threshold s | None \<Rightarrow> 3) =
         (case select_settings user_id db of Some s \<Rightarrow> us_top_n_threshold s | None \<Rightarrow> 3)"
    and "(case select_settings user_id' db' of Some s \<Rightarrow> us_score_difference_threshold s | None \<Rightarrow> 10) =
         (case select_settings user_id db of Some s \<Rightarrow> us_score_difference_threshold s | None \<Rightarrow> 10)"
  shows "fst (validate_move position_id selected_move user_id' db') =
         fst (validate_move position_id selected_move user_id db)"
proof (cases "select_move position_id selected_move db = None \<or> select_top_move position_id db = None")
  case True
  with assms(1) have "select_move position_id selected_move db' = None \<or> select_top_move position_id db' = None"
    by (simp add: select_move_def select_top_move_def moves_of_position_def)
  with True show ?thesis by (simp add: validate_move_not_found)
next
  case False
  then obtain sel best where sel: "select_move position_id selected_move db = Some sel"
    and best: "select_top_move position_id db = Some best" by auto
  from assms(1) sel best have sel': "select_move position_id selected_move db' = Some sel"
    and best': "select_top_move position_id db' = Some best"
    by (simp_all add: select_move_def select_top_move_def moves_of_position_def)
  show ?thesis
    using assms(2,3)
    by (simp add: validate_move_found [OF sel best] validate_move_found [OF sel' best'] Let_def)
qed

section \<open>Properties of move validation\<close>

text \<open>
  Claim C1. Let the tables keep their keys: a move notation occurs once per position in
  \<^verbatim>\<open>moves\<close> and a user id once in \<^verbatim>\<open>user_settings\<close>. Let \<open>sel\<close> be the row of \<^verbatim>\<open>moves\<close> with the
  position id and the submitted notation, and \<open>best\<close> the row of the position with rank 1
  (the first in move text, should several rows of the position have rank 1). Let \<open>top_n\<close>
  and \<open>score_diff\<close> be the thresholds of the user's row of \<^verbatim>\<open>user_settings\<close>, or 3 and 10
  when the user has no row. Then \<^verbatim>\<open>validate_move\<close> returns the full dict, and its \<^verbatim>\<open>success\<close>
  is true if and only if the rank of \<open>sel\<close> is at most \<open>top_n\<close> and the absolute difference
  of the scores of \<open>sel\<close> and \<open>best\<close> is at most \<open>score_diff\<close>. A rank above the threshold
  alone, or a score difference above the threshold alone, makes \<^verbatim>\<open>success\<close> false.
  \<^verbatim>\<open>result\<close> is \<^verbatim>\<open>pass\<close> exactly when \<^verbatim>\<open>success\<close> is true, and \<^verbatim>\<open>fail\<close> exactly when it is
  false.
\<close>

theorem validate_move_success_iff:
  assumes "distinct (map (\<lambda>m. (mv_position_id m, mv_move m)) (moves db))"
    and "distinct (map us_user_id (user_settings db))"
    and "sel \<in> set (moves db)" and "mv_position_id sel = position_id"
    and "mv_move sel = selected_move"
    and "best \<in> set (moves db)" and "mv_position_id best = position_id" and "mv_rank best = 1"
    and "\<forall>m\<in>set (moves db).
           mv_position_id m = position_id \<and> mv_rank m = 1 \<longrightarrow> mv_move best \<le> mv_move m"
    and "(\<exists>st\<in>set (user_settings db). us_user_id st = user_id \<and>
            top_n = us_top_n_threshold st \<and> score_diff = us_score_difference_threshold st) \<or>
         (user_id \<notin> us_user_id ` set (user_settings db) \<and> top_n = 3 \<and> score_diff = 10)"
  shows "\<exists>v. fst (validate_move position_id selected_move user_id db) = Inr v \<and> is_Full v \<and>
           (v_success v \<longleftrightarrow>
              mv_rank sel \<le> top_n \<and> \<bar>mv_score sel - mv_score best\<bar> \<le> score_diff) \<and>
           (top_n < mv_rank sel \<longrightarrow> \<not> v_success v) \<and>
           (score_diff < \<bar>mv_score sel - mv_score best\<bar> \<longrightarrow> \<not> v_success v) \<and>
           (v_result v = ''pass'' \<longleftrightarrow> v_success v) \<and>
           (v_result v = ''fail'' \<longleftrightarrow> \<not> v_success v)"
proof -
  have sel: "select_move position_id selected_move db = Some sel"
    using select_move_unique [OF assms(1,3)] assms(4,5) by simp
  have best: "select_top_move position_id db = Some best"
    by (rule select_top_move_first [OF assms(1,6-9)])
  have thresholds:
    "top_n = (case select_settings user_id db of Some s \<Rightarrow> us_top_n_threshold s | None \<Rightarrow> 3) \<and>
     score_diff = (case select_settings user_id db of
                     Some s \<Rightarrow> us_score_difference_threshold s | None \<Rightarrow> 10)"
    using assms(10)
  proof
    assume "\<exists>st\<in>set (user_settings db). us_user_id st = user_id \<and>
            top_n = us_top_n_threshold st \<and> score_diff = us_score_difference_threshold st"
    then obtain st where st: "st \<in> set (user_settings db)" and id: "us_user_id st = user_id"
      and t: "top_n = us_top_n_threshold st" "score_diff = us_score_difference_threshold st"
      by blast
    from select_settings_row [OF assms(2) st] id
    have "select_settings user_id db = Some st" by simp
    with t show ?thesis by simp
  next
    assume a: "user_id \<notin> us_user_id ` set (user_settings db) \<and> top_n = 3 \<and> score_diff = 10"
    then have "select_settings user_id db = None" by (simp add: select_settings_absent)
    with a show ?thesis by simp
  qed
  show ?thesis
    using thresholds by (simp add: validate_move_found [OF sel best] Let_def)
qed

theorem validate_move_success_iff_witness:
  "(\<exists>v. fst (validate_move 1 ''Nf3'' 10 example_db) = Inr v \<and> v_success v \<and>
        v_result v = ''pass'') \<and>
   (\<exists>v. fst (validate_move 1 ''d4'' 11 example_db) = Inr v \<and> \<not> v_success v \<and>
        v_result v = ''fail'') \<and>
   (\<exists>v. fst (validate_move 1 ''Nf3'' 8 example_db) = Inr v \<and> \<not> v_success v \<and>
        v_result v = ''fail'')"
proof -
  have keys: "distinct (map (\<lambda>m. (mv_position_id m, mv_move m)) (moves example_db))"
    "distinct (map us_user_id (user_settings example_db))"
    by (simp_all add: example_db_def example_move_def example_settings_def)
  have rows: "example_move 3 1 ''Nf3'' 10 3 \<in> set (moves example_db)"
    "example_move 2 1 ''d4'' 25 2 \<in> set (moves example_db)"
    "example_move 1 1 ''e4'' 30 1 \<in> set (moves example_db)"
    by (simp_all add: example_db_def)
  have first: "\<forall>m\<in>set (moves example_db). mv_position_id m = 1 \<and> mv_rank m = 1 \<longrightarrow>
                 mv_move (example_move 1 1 ''e4'' 30 1) \<le> mv_move m"
    by (simp add: example_db_def example_move_def)
  have u10: "(\<exists>st\<in>set (user_settings example_db). us_user_id st = 10 \<and>
                3 = us_top_n_threshold st \<and> 25 = us_score_difference_threshold st) \<or>
             (10 \<notin> us_user_id ` set (user_settings example_db) \<and> (3::int) = 3 \<and> (25::int) = 10)"
    by (simp add: example_db_def example_settings_def)
  have u11: "(\<exists>st\<in>set (user_settings example_db). us_user_id st = 11 \<and>
                1 = us_top_n_threshold st \<and> 10 = us_score_difference_threshold st) \<or>
             (11 \<notin> us_user_id ` set (user_settings example_db) \<and> (1::int) = 3 \<and> (10::int) = 10)"
    by (simp add: example_db_def example_settings_def)
  have u8: "(\<exists>st\<in>set (user_settings example_db). us_user_id st = 8 \<and>
                2 = us_top_n_threshold st \<and> 10 = us_score_difference_threshold st) \<or>
             (8 \<notin> us_user_id ` set (user_settings example_db) \<and> (2::int) = 3 \<and> (10::int) = 10)"
    by (simp add: example_db_def example_settings_def)
  from validate_move_success_iff [where position_id = 1 and selected_move = "''Nf3''",
      OF keys rows(1) _ _ rows(3) _ _ first u10]
  have a: "\<exists>v. fst (validate_move 1 ''Nf3'' 10 example_db) = Inr v \<and> v_success v \<and>
        v_result v = ''pass''"
    by (auto simp add: example_move_def)
  from validate_move_success_iff [where position_id = 1 and selected_move = "''d4''",
      OF keys rows(2) _ _ rows(3) _ _ first u11]
  have b: "\<exists>v. fst (validate_move 1 ''d4'' 11 example_db) = Inr v \<and> \<not> v_success v \<and>
        v_result v = ''fail''"
    by (auto simp add: example_move_def)
  from validate_move_success_iff [where position_id = 1 and selected_move = "''Nf3''",
      OF keys rows(1) _ _ rows(3) _ _ first u8]
  have c: "\<exists>v. fst (validate_move 1 ''Nf3'' 8 example_db) = Inr v \<and> \<not> v_success v \<and>
        v_result v = ''fail''"
    by (auto simp add: example_move_def)
  from a b c show ?thesis by blast
qed

text \<open>
  Claim C3. In a database where a move notation occurs once per position (the \<^verbatim>\<open>UNIQUE\<close>
  constraint of the \<^verbatim>\<open>moves\<close> table) and the ranks of the position's candidates are
  pairwise different, for a candidate \<open>r\<close> of rank 1 and a user whose thresholds are at
  least 1 and at least 0: validating the notation of \<open>r\<close> returns the full dict with
  \<^verbatim>\<open>success\<close> true, \<^verbatim>\<open>score_difference\<close> 0 and \<^verbatim>\<open>result\<close> \<^verbatim>\<open>pass\<close>, for the move \<open>r\<close>.
\<close>

theorem validate_move_top_move_passes:
  assumes "distinct (map (\<lambda>m. (mv_position_id m, mv_move m)) (moves db))"
    and "distinct (map mv_rank (filter (\<lambda>m. mv_position_id m = position_id) (moves db)))"
    and "r \<in> set (moves db)" and "mv_position_id r = position_id" and "mv_rank r = 1"
    and "1 \<le> (case select_settings user_id db of Some s \<Rightarrow> us_top_n_threshold s | None \<Rightarrow> 3)"
    and "0 \<le> (case select_settings user_id db of
                 Some s \<Rightarrow> us_score_difference_threshold s | None \<Rightarrow> 10)"
  shows "\<exists>v. fst (validate_move position_id (mv_move r) user_id db) = Inr v \<and> is_Full v \<and>
           v_success v \<and> v_score_difference v = 0 \<and> v_result v = ''pass'' \<and>
           v_move_id v = mv_id r"
proof -
  have sel: "select_move position_id (mv_move r) db = Some r"
    using select_move_unique [OF assms(1,3)] assms(4) by simp
  have best: "select_top_move position_id db = Some r"
    by (rule select_top_move_unique [OF assms(2-5)])
  show ?thesis
    using assms(5-7) by (simp add: validate_move_found [OF sel best] Let_def)
qed

theorem validate_move_top_move_passes_witness:
  "\<exists>v. fst (validate_move 1 ''e4'' 8 example_db) = Inr v \<and> is_Full v \<and>
       v_success v \<and> v_score_difference v = 0 \<and> v_result v = ''pass'' \<and> v_move_id v = 1"
proof -
  have 1: "distinct (map (\<lambda>m. (mv_position_id m, mv_move m)) (moves example_db))"
    by (simp add: example_db_def example_move_def)
  have 2: "distinct (map mv_rank (filter (\<lambda>m. mv_position_id m = 1) (moves example_db)))"
    by (simp add: example_db_def example_move_def)
  have 3: "example_move 1 1 ''e4'' 30 1 \<in> set (moves example_db)"
    by (simp add: example_db_def)
  have 4: "mv_position_id (example_move 1 1 ''e4'' 30 1) = 1"
    and 5: "mv_rank (example_move 1 1 ''e4'' 30 1) = 1"
    by (simp_all add: example_move_def)
  have 6: "1 \<le> (case select_settings 8 example_db of Some s \<Rightarrow> us_top_n_threshold s | None \<Rightarrow> 3)"
    by (simp add: select_settings_def example_db_def example_settings_def)
  have 7: "0 \<le> (case select_settings 8 example_db of
                 Some s \<Rightarrow> us_score_difference_threshold s | None \<Rightarrow> 10)"
    by (simp add: select_settings_def example_db_def example_settings_def)
  from validate_move_top_move_passes [OF 1 2 3 4 5 6 7]
  show ?thesis by (simp add: example_move_def)
qed
text \<open>
  Claim C4, as the code has it. \<^verbatim>\<open>validate_move\<close> never raises: it returns a dict for every
  input. It returns the short failure dict, \<^verbatim>\<open>success\<close> false with the message
  \<^verbatim>\<open>Move not found or position invalid\<close>, when no row of \<^verbatim>\<open>moves\<close> has the position id and
  the submitted notation, when no row has the position id and rank 1, and when no row has
  the position id at all: the position has no candidates, whether or not \<^verbatim>\<open>positions\<close>
  holds it. \<^verbatim>\<open>validate_move\<close> never reads \<^verbatim>\<open>positions\<close>.
\<close>

theorem validate_move_not_found_is_value:
  "(\<exists>v. fst (validate_move position_id selected_move user_id db) = Inr v) \<and>
   ((\<forall>r\<in>set (moves db). \<not> (mv_position_id r = position_id \<and> mv_move r = selected_move)) \<longrightarrow>
      fst (validate_move position_id selected_move user_id db) =
        Inr (Short False ''Move not found or position invalid'')) \<and>
   ((\<forall>r\<in>set (moves db). \<not> (mv_position_id r = position_id \<and> mv_rank r = 1)) \<longrightarrow>
      fst (validate_move position_id selected_move user_id db) =
        Inr (Short False ''Move not found or position invalid'')) \<and>
   ((\<forall>r\<in>set (moves db). mv_position_id r \<noteq> position_id) \<longrightarrow>
      fst (validate_move position_id selected_move user_id db) =
        Inr (Short False ''Move not found or position invalid''))"
proof -
  have raise_free: "\<exists>v. fst (validate_move position_id selected_move user_id db) = Inr v"
    by (simp add: validate_move_def action_defs Let_def split: option.splits)
  have no_move: "fst (validate_move position_id selected_move user_id db) =
        Inr (Short False ''Move not found or position invalid'')"
    if "\<forall>r\<in>set (moves db). \<not> (mv_position_id r = position_id \<and> mv_move r = selected_move)"
  proof -
    from that have "select_move position_id selected_move db = None"
      by (rule select_move_absent)
    then show ?thesis by (simp add: validate_move_not_found)
  qed
  have no_top: "fst (validate_move position_id selected_move user_id db) =
        Inr (Short False ''Move not found or position invalid'')"
    if "\<forall>r\<in>set (moves db). \<not> (mv_position_id r = position_id \<and> mv_rank r = 1)"
  proof -
    from that have "select_top_move position_id db = None"
      by (rule select_top_move_absent)
    then show ?thesis by (simp add: validate_move_not_found)
  qed
  have no_candidates: "fst (validate_move position_id selected_move user_id db) =
        Inr (Short False ''Move not found or position invalid'')"
    if "\<forall>r\<in>set (moves db). mv_position_id r \<noteq> position_id"
    using that by (intro no_top) simp
  show ?thesis
    apply (intro conjI impI)
       apply (rule raise_free)
      apply (erule no_move)
     apply (erule no_top)
    apply (erule no_candidates)
    done
qed

theorem validate_move_not_found_is_value_witness:
  "fst (validate_move 1 ''a3'' 7 example_db) = Inr (Short False ''Move not found or position invalid'') \<and>
   fst (validate_move 2 ''e4'' 7 example_db) = Inr (Short False ''Move not found or position invalid'') \<and>
   fst (validate_move 99 ''e4'' 7 example_db) = Inr (Short False ''Move not found or position invalid'') \<and>
   fst (validate_move 1 ''d4'' 7 (example_db\<lparr>moves := [example_move 2 1 ''d4'' 25 2]\<rparr>)) =
     Inr (Short False ''Move not found or position invalid'')"
proof -
  have d: "\<forall>r\<in>set (moves (example_db\<lparr>moves := [example_move 2 1 ''d4'' 25 2]\<rparr>)).
             \<not> (mv_position_id r = 1 \<and> mv_rank r = 1)"
    by (simp add: example_move_def)
  have a: "\<forall>r\<in>set (moves example_db). \<not> (mv_position_id r = 1 \<and> mv_move r = ''a3'')"
    by (simp add: example_db_def example_move_def)
  have b: "\<forall>r\<in>set (moves example_db). mv_position_id r \<noteq> 2"
    by (simp add: example_db_def example_move_def)
  have c: "\<forall>r\<in>set (moves example_db). mv_position_id r \<noteq> 99"
    by (simp add: example_db_def example_move_def)
  from a validate_move_not_found_is_value [of 1 "''a3''" 7 example_db]
  have "fst (validate_move 1 ''a3'' 7 example_db) = Inr (Short False ''Move not found or position invalid'')"
    by simp
  moreover from b validate_move_not_found_is_value [of 2 "''e4''" 7 example_db]
  have "fst (validate_move 2 ''e4'' 7 example_db) = Inr (Short False ''Move not found or position invalid'')"
    by simp
  moreover from c validate_move_not_found_is_value [of 99 "''e4''" 7 example_db]
  have "fst (validate_move 99 ''e4'' 7 example_db) = Inr (Short False ''Move not found or position invalid'')"
    by simp
  moreover from d validate_move_not_found_is_value
      [of 1 "''d4''" 7 "example_db\<lparr>moves := [example_move 2 1 ''d4'' 25 2]\<rparr>"]
  have "fst (validate_move 1 ''d4'' 7 (example_db\<lparr>moves := [example_move 2 1 ''d4'' 25 2]\<rparr>)) =
          Inr (Short False ''Move not found or position invalid'')"
    by blast
  ultimately show ?thesis by simp
qed

text \<open>
  The claim as the specification words it also promises the failure dict whenever the
  position does not exist. In \<open>example_db_orphan\<close> position 5 is not in \<^verbatim>\<open>positions\<close>, rows of
  \<^verbatim>\<open>moves\<close> still carry its id, and \<^verbatim>\<open>validate_move\<close> accepts the move e4 for it.
\<close>

theorem validate_move_missing_position_counterexample:
  "map pos_id (positions example_db_orphan) = [1] \<and>
   fst (validate_move 5 ''e4'' 9 example_db_orphan) =
     Inr (Full True 2 1 30 ''good'' 0 0 ''pass'' ''Move ranked #1'')"
proof -
  have sel: "select_move 5 ''e4'' example_db_orphan = Some (example_move 2 5 ''e4'' 30 1)"
    by (simp add: select_move_def moves_of_position_def example_db_orphan_def example_move_def)
  have best: "select_top_move 5 example_db_orphan = Some (example_move 2 5 ''e4'' 30 1)"
    by (simp add: select_top_move_def moves_of_position_def example_db_orphan_def example_move_def)
  have settings: "select_settings 9 example_db_orphan = None"
    by (simp add: select_settings_def example_db_orphan_def example_db_def example_settings_def)
  have one: "str_int 1 = ''1''"
    by code_simp
  have accepted: "fst (validate_move 5 ''e4'' 9 example_db_orphan) =
     Inr (Full True 2 1 30 ''good'' 0 0 ''pass'' ''Move ranked #1'')"
    unfolding validate_move_found [OF sel best]
    by (simp add: settings Let_def one example_move_def)
  have missing: "map pos_id (positions example_db_orphan) = [1]"
    by (simp add: example_db_orphan_def example_position_def)
  from missing accepted show ?thesis by simp
qed

text \<open>
  Claim C7. With the tables, the rows \<open>sel\<close> and \<open>best\<close> and the user's thresholds as in
  claim C1, the message of the dict is \<^verbatim>\<open>Move ranked #\<close> followed by the rank of \<open>sel\<close>;
  when that rank is at most the user's \<^verbatim>\<open>top_n_threshold\<close> and the result is \<^verbatim>\<open>fail\<close>, the
  message goes on with \<^verbatim>\<open>, but score difference too high: \<close> and the score difference; in
  every other case nothing follows the rank. With a rank within the threshold, the result is
  \<^verbatim>\<open>fail\<close> exactly when the score difference exceeds the user's
  \<^verbatim>\<open>score_difference_threshold\<close>.
\<close>

theorem validate_move_message:
  assumes "distinct (map (\<lambda>m. (mv_position_id m, mv_move m)) (moves db))"
    and "distinct (map us_user_id (user_settings db))"
    and "sel \<in> set (moves db)" and "mv_position_id sel = position_id"
    and "mv_move sel = selected_move"
    and "best \<in> set (moves db)" and "mv_position_id best = position_id" and "mv_rank best = 1"
    and "\<forall>m\<in>set (moves db).
           mv_position_id m = position_id \<and> mv_rank m = 1 \<longrightarrow> mv_move best \<le> mv_move m"
    and "(\<exists>st\<in>set (user_settings db). us_user_id st = user_id \<and>
            top_n = us_top_n_threshold st \<and> score_diff = us_score_difference_threshold st) \<or>
         (user_id \<notin> us_user_id ` set (user_settings db) \<and> top_n = 3 \<and> score_diff = 10)"
  shows "\<exists>v. fst (validate_move position_id selected_move user_id db) = Inr v \<and> is_Full v \<and>
           v_rank v = mv_rank sel \<and>
           v_score_difference v = \<bar>mv_score sel - mv_score best\<bar> \<and>
           v_message v =
             ''Move ranked #'' @ str_int (mv_rank sel) @
             (if mv_rank sel \<le> top_n \<and> v_result v = ''fail''
              then '', but score difference too high: '' @
                   str_int \<bar>mv_score sel - mv_score best\<bar>
              else '''') \<and>
           (mv_rank sel \<le> top_n \<and> v_result v = ''fail'' \<longleftrightarrow>
              mv_rank sel \<le> top_n \<and> score_diff < \<bar>mv_score sel - mv_score best\<bar>)"
proof -
  have sel: "select_move position_id selected_move db = Some sel"
    using select_move_unique [OF assms(1,3)] assms(4,5) by simp
  have best: "select_top_move position_id db = Some best"
    by (rule select_top_move_first [OF assms(1,6-9)])
  have thresholds:
    "top_n = (case select_settings user_id db of Some s \<Rightarrow> us_top_n_threshold s | None \<Rightarrow> 3) \<and>
     score_diff = (case select_settings user_id db of
                     Some s \<Rightarrow> us_score_difference_threshold s | None \<Rightarrow> 10)"
    using assms(10)
  proof
    assume "\<exists>st\<in>set (user_settings db). us_user_id st = user_id \<and>
            top_n = us_top_n_threshold st \<and> score_diff = us_score_difference_threshold st"
    then obtain st where st: "st \<in> set (user_settings db)" and id: "us_user_id st = user_id"
      and t: "top_n = us_top_n_threshold st" "score_diff = us_score_difference_threshold st"
      by blast
    from select_settings_row [OF assms(2) st] id
    have "select_settings user_id db = Some st" by simp
    with t show ?thesis by simp
  next
    assume a: "user_id \<notin> us_user_id ` set (user_settings db) \<and> top_n = 3 \<and> score_diff = 10"
    then have "select_settings user_id db = None" by (simp add: select_settings_absent)
    with a show ?thesis by simp
  qed
  show ?thesis
    using thresholds by (auto simp add: validate_move_found [OF sel best] Let_def)
qed

theorem validate_move_message_witness:
  "(\<exists>v. fst (validate_move 1 ''Nf3'' 7 example_db) = Inr v \<and>
        v_message v = ''Move ranked #3, but score difference too high: 20'') \<and>
   (\<exists>v. fst (validate_move 1 ''Nf3'' 10 example_db) = Inr v \<and>
        v_message v = ''Move ranked #3'') \<and>
   (\<exists>v. fst (validate_move 1 ''d4'' 11 example_db) = Inr v \<and>
        v_message v = ''Move ranked #2'')"
proof -
  have keys: "distinct (map (\<lambda>m. (mv_position_id m, mv_move m)) (moves example_db))"
    "distinct (map us_user_id (user_settings example_db))"
    by (simp_all add: example_db_def example_move_def example_settings_def)
  have rows: "example_move 3 1 ''Nf3'' 10 3 \<in> set (moves example_db)"
    "example_move 2 1 ''d4'' 25 2 \<in> set (moves example_db)"
    "example_move 1 1 ''e4'' 30 1 \<in> set (moves example_db)"
    by (simp_all add: example_db_def)
  have first: "\<forall>m\<in>set (moves example_db). mv_position_id m = 1 \<and> mv_rank m = 1 \<longrightarrow>
                 mv_move (example_move 1 1 ''e4'' 30 1) \<le> mv_move m"
    by (simp add: example_db_def example_move_def)
  have u7: "(\<exists>st\<in>set (user_settings example_db). us_user_id st = 7 \<and>
                3 = us_top_n_threshold st \<and> 15 = us_score_difference_threshold st) \<or>
             (7 \<notin> us_user_id ` set (user_settings example_db) \<and> (3::int) = 3 \<and> (15::int) = 10)"
    by (simp add: example_db_def example_settings_def)
  have u10: "(\<exists>st\<in>set (user_settings example_db). us_user_id st = 10 \<and>
                3 = us_top_n_threshold st \<and> 25 = us_score_difference_threshold st) \<or>
             (10 \<notin> us_user_id ` set (user_settings example_db) \<and> (3::int) = 3 \<and> (25::int) = 10)"
    by (simp add: example_db_def example_settings_def)
  have u11: "(\<exists>st\<in>set (user_settings example_db). us_user_id st = 11 \<and>
                1 = us_top_n_threshold st \<and> 10 = us_score_difference_threshold st) \<or>
             (11 \<notin> us_user_id ` set (user_settings example_db) \<and> (1::int) = 3 \<and> (10::int) = 10)"
    by (simp add: example_db_def example_settings_def)
  have digits: "str_int 2 = ''2''" "str_int 3 = ''3''" "str_int 20 = ''20''"
    by code_simp+
  from validate_move_message [where position_id = 1 and selected_move = "''Nf3''",
      OF keys rows(1) _ _ rows(3) _ _ first u7]
  obtain v where v: "fst (validate_move 1 ''Nf3'' 7 example_db) = Inr v"
    and m: "v_message v =
             ''Move ranked #'' @ str_int 3 @
             (if (3::int) \<le> 3 \<and> v_result v = ''fail''
              then '', but score difference too high: '' @ str_int 20 else '''')"
    and f: "(3::int) \<le> 3 \<and> v_result v = ''fail'' \<longleftrightarrow> (3::int) \<le> 3 \<and> (15::int) < 20"
    by (auto simp add: example_move_def)
  from f have "v_result v = ''fail''"
    by simp
  with m digits have "v_message v = ''Move ranked #3, but score difference too high: 20''"
    by simp
  with v have a: "\<exists>v. fst (validate_move 1 ''Nf3'' 7 example_db) = Inr v \<and>
        v_message v = ''Move ranked #3, but score difference too high: 20''"
    by blast
  from validate_move_message [where position_id = 1 and selected_move = "''Nf3''",
      OF keys rows(1) _ _ rows(3) _ _ first u10]
  obtain w where w: "fst (validate_move 1 ''Nf3'' 10 example_db) = Inr w"
    and mw: "v_message w =
             ''Move ranked #'' @ str_int 3 @
             (if (3::int) \<le> 3 \<and> v_result w = ''fail''
              then '', but score difference too high: '' @ str_int 20 else '''')"
    and fw: "(3::int) \<le> 3 \<and> v_result w = ''fail'' \<longleftrightarrow> (3::int) \<le> 3 \<and> (25::int) < 20"
    by (auto simp add: example_move_def)
  from fw have "v_result w \<noteq> ''fail''"
    by simp
  with mw digits have "v_message w = ''Move ranked #3''"
    by simp
  with w have b: "\<exists>v. fst (validate_move 1 ''Nf3'' 10 example_db) = Inr v \<and>
        v_message v = ''Move ranked #3''"
    by blast
  from validate_move_message [where position_id = 1 and selected_move = "''d4''",
      OF keys rows(2) _ _ rows(3) _ _ first u11] digits
  have c: "\<exists>v. fst (validate_move 1 ''d4'' 11 example_db) = Inr v \<and>
        v_message v = ''Move ranked #2''"
    by (auto simp add: example_move_def)
  from a b c show ?thesis by blast
qed

text \<open>
  Claim C8. For a user id that no row of \<^verbatim>\<open>user_settings\<close> carries, \<^verbatim>\<open>validate_move\<close> returns
  a dict (it does not raise), and the dict is the one it returns, over the same \<^verbatim>\<open>moves\<close>
  table, for a user whose stored thresholds are 3 and 10; when both lookups find their rows,
  \<^verbatim>\<open>success\<close> is true exactly when the rank is at most 3 and the score difference at most 10.
\<close>

theorem validate_move_default_thresholds:
  assumes "user_id \<notin> us_user_id ` set (user_settings db)"
    and "select_settings user_id' db' = Some s"
    and "us_top_n_threshold s = 3" and "us_score_difference_threshold s = 10"
    and "moves db' = moves db"
  shows "(\<exists>v. fst (validate_move position_id selected_move user_id db) = Inr v) \<and>
         fst (validate_move position_id selected_move user_id db) =
           fst (validate_move position_id selected_move user_id' db') \<and>
         (\<forall>sel best. select_move position_id selected_move db = Some sel \<longrightarrow>
              select_top_move position_id db = Some best \<longrightarrow>
              (\<exists>v. fst (validate_move position_id selected_move user_id db) = Inr v \<and> is_Full v \<and>
                 (v_success v \<longleftrightarrow> mv_rank sel \<le> 3 \<and> \<bar>mv_score sel - mv_score best\<bar> \<le> 10)))"
proof -
  have none: "select_settings user_id db = None"
    using assms(1) by (rule select_settings_absent)
  have 1: "\<exists>v. fst (validate_move position_id selected_move user_id db) = Inr v"
    by (simp add: validate_move_def action_defs Let_def split: option.splits)
  have 2: "fst (validate_move position_id selected_move user_id db) =
           fst (validate_move position_id selected_move user_id' db')"
    using none assms(2-5) by (intro validate_move_depends [symmetric]) simp_all
  have 3: "\<exists>v. fst (validate_move position_id selected_move user_id db) = Inr v \<and> is_Full v \<and>
                 (v_success v \<longleftrightarrow> mv_rank sel \<le> 3 \<and> \<bar>mv_score sel - mv_score best\<bar> \<le> 10)"
    if "select_move position_id selected_move db = Some sel"
      and "select_top_move position_id db = Some best" for sel best
    using none by (simp add: validate_move_found [OF that] Let_def)
  from 1 2 3 show ?thesis by blast
qed

theorem validate_move_default_thresholds_witness:
  "fst (validate_move 1 ''Nf3'' 9 example_db) =
     fst (validate_move 1 ''Nf3'' 9 (example_db\<lparr>user_settings := [example_settings 9 3 10]\<rparr>)) \<and>
   (\<exists>v. fst (validate_move 1 ''Nf3'' 9 example_db) = Inr v \<and> is_Full v \<and> \<not> v_success v)"
proof -
  have 1: "9 \<notin> us_user_id ` set (user_settings example_db)"
    by (simp add: example_db_def example_settings_def)
  have 2: "select_settings 9 (example_db\<lparr>user_settings := [example_settings 9 3 10]\<rparr>) =
             Some (example_settings 9 3 10)"
    by (simp add: select_settings_def example_settings_def)
  have 3: "us_top_n_threshold (example_settings 9 3 10) = 3"
    and 4: "us_score_difference_threshold (example_settings 9 3 10) = 10"
    by (simp_all add: example_settings_def)
  have 5: "moves (example_db\<lparr>user_settings := [example_settings 9 3 10]\<rparr>) = moves example_db"
    by simp
  have sel: "select_move 1 ''Nf3'' example_db = Some (example_move 3 1 ''Nf3'' 10 3)"
    by (simp add: select_move_def example_moves_of_position) (simp add: example_move_def)
  have best: "select_top_move 1 example_db = Some (example_move 1 1 ''e4'' 30 1)"
    by (simp add: select_top_move_def example_moves_of_position) (simp add: example_move_def)
  from validate_move_default_thresholds [OF 1 2 3 4 5, of 1 "''Nf3''"] sel best
  show ?thesis by (auto simp add: example_move_def)
qed
section \<open>Properties of clearing the catalog\<close>

lemma clear_positions_refused:
  assumes "user_moves db \<noteq> []"
  shows "clear_positions db =
     (Inr (False, ''Cannot clear positions: '' @ str_int (int (length (user_moves db))) @
                  '' user moves would be lost. Export user data first.''), db)"
  using assms by (simp add: clear_positions_def action_defs count_user_moves_def)

lemma clear_positions_cleared:
  assumes "user_moves db = []"
  shows "clear_positions db =
     (Inr (True, ''All positions and moves cleared successfully.''), db\<lparr>moves := [], positions := []\<rparr>)"
  using assms
  by (simp add: clear_positions_def action_defs count_user_moves_def delete_moves_def
        delete_positions_def)

text \<open>
  Claim C5. When \<^verbatim>\<open>user_moves\<close> has at least one row, \<^verbatim>\<open>clear_positions\<close> returns
  \<^verbatim>\<open>False\<close> with a message and leaves the whole database, so \<^verbatim>\<open>positions\<close> and \<^verbatim>\<open>moves\<close>,
  exactly as it was. When \<^verbatim>\<open>user_moves\<close> is empty it returns \<^verbatim>\<open>True\<close>, and afterwards
  \<^verbatim>\<open>positions\<close> and \<^verbatim>\<open>moves\<close> are empty and the other tables unchanged. So \<^verbatim>\<open>positions\<close> or
  \<^verbatim>\<open>moves\<close> change only when \<^verbatim>\<open>user_moves\<close> has no row.
\<close>

theorem clear_positions_guarded:
  "(user_moves db \<noteq> [] \<longrightarrow>
      (\<exists>message. fst (clear_positions db) = Inr (False, message)) \<and>
      snd (clear_positions db) = db) \<and>
   (user_moves db = [] \<longrightarrow>
      fst (clear_positions db) = Inr (True, ''All positions and moves cleared successfully.'') \<and>
      positions (snd (clear_positions db)) = [] \<and>
      moves (snd (clear_positions db)) = [] \<and>
      user_moves (snd (clear_positions db)) = user_moves db \<and>
      user_settings (snd (clear_positions db)) = user_settings db) \<and>
   (positions (snd (clear_positions db)) \<noteq> positions db \<or>
    moves (snd (clear_positions db)) \<noteq> moves db \<longrightarrow> user_moves db = [])"
proof (cases "user_moves db = []")
  case True
  then show ?thesis by (simp add: clear_positions_cleared)
next
  case False
  then show ?thesis by (simp add: clear_positions_refused)
qed

theorem clear_positions_guarded_witness:
  "(\<exists>message. fst (clear_positions example_db_attempted) = Inr (False, message)) \<and>
   snd (clear_positions example_db_attempted) = example_db_attempted \<and>
   fst (clear_positions example_db) = Inr (True, ''All positions and moves cleared successfully.'') \<and>
   positions (snd (clear_positions example_db)) = [] \<and>
   moves (snd (clear_positions example_db)) = []"
proof -
  have a: "user_moves example_db_attempted \<noteq> []"
    by (simp add: example_db_attempted_def)
  have b: "user_moves example_db = []"
    by (simp add: example_db_def)
  from a clear_positions_guarded [of example_db_attempted]
  have refused: "(\<exists>message. fst (clear_positions example_db_attempted) = Inr (False, message)) \<and>
      snd (clear_positions example_db_attempted) = example_db_attempted"
    by blast
  from b clear_positions_guarded [of example_db]
  have cleared: "fst (clear_positions example_db) =
        Inr (True, ''All positions and moves cleared successfully.'') \<and>
      positions (snd (clear_positions example_db)) = [] \<and>
      moves (snd (clear_positions example_db)) = []"
    by blast
  from refused cleared show ?thesis by blast
qed

section \<open>Properties of recording attempts\<close>

lemma fold_max_ge: "a \<le> fold max xs (a::int)"
  by (induction xs arbitrary: a) (auto intro: order_trans [OF max.cobounded2])

lemma fold_max_ge_elem: "x \<in> set xs \<Longrightarrow> x \<le> fold max xs (a::int)"
proof (induction xs arbitrary: a)
  case Nil
  then show ?case by simp
next
  case (Cons y ys)
  show ?case
  proof (cases "x = y")
    case True
    have "max y a \<le> fold max ys (max y a)" by (rule fold_max_ge)
    with True show ?thesis by simp
  next
    case False
    with Cons.prems have "x \<in> set ys" by simp
    then show ?thesis by (simp add: Cons.IH)
  qed
qed

lemma record_user_move_eq:
  "record_user_move user_id position_id move_id time_taken result now db =
     (Inr (fold max (map um_id (user_moves db)) (user_moves_seq db) + 1),
      db\<lparr>user_moves := user_moves db @
            [\<lparr>um_id = fold max (map um_id (user_moves db)) (user_moves_seq db) + 1,
              um_user_id = user_id, um_position_id = position_id,
              um_move_id = move_id, um_time_taken = time_taken, um_result = result,
              um_timestamp = now, um_openai_analysis = None\<rparr>],
          user_moves_seq := fold max (map um_id (user_moves db)) (user_moves_seq db) + 1\<rparr>)"
  by (simp add: record_user_move_def action_defs insert_user_move_def Let_def)

lemma lastrowid_fresh:
  "fold max (map um_id (user_moves db)) (user_moves_seq db) + 1 \<notin> um_id ` set (user_moves db)"
proof
  assume "fold max (map um_id (user_moves db)) (user_moves_seq db) + 1 \<in> um_id ` set (user_moves db)"
  then have "fold max (map um_id (user_moves db)) (user_moves_seq db) + 1 \<in> set (map um_id (user_moves db))"
    by simp
  then have "fold max (map um_id (user_moves db)) (user_moves_seq db) + 1
               \<le> fold max (map um_id (user_moves db)) (user_moves_seq db)"
    by (rule fold_max_ge_elem)
  then show False by simp
qed

lemma save_openai_analysis_eq:
  "save_openai_analysis move_record_id analysis_text db =
     (Inr True, db\<lparr>user_moves :=
            map (\<lambda>r. if um_id r = move_record_id
                      then r\<lparr>um_openai_analysis := Some analysis_text\<rparr> else r)
                (user_moves db)\<rparr>)"
  by (simp add: save_openai_analysis_def action_defs update_openai_analysis_def)

lemma attach_unchanged:
  assumes "move_record_id \<notin> um_id ` set rows"
  shows "map (\<lambda>r. if um_id r = move_record_id
                      then r\<lparr>um_openai_analysis := Some analysis_text\<rparr> else r) rows = rows"
  using assms by (induction rows) auto

text \<open>
  Claim C6. \<^verbatim>\<open>record_user_move\<close> returns the id \<open>new_id\<close>, which no row of \<^verbatim>\<open>user_moves\<close>
  carried before, and afterwards \<^verbatim>\<open>user_moves\<close> is the old table followed by the one new row
  with that id, the arguments, the timestamp and no analysis; the other tables are
  unchanged. Attaching a first and then a latest text to the new id leaves the old rows
  followed by the new row with the latest text. For any database and any attempt id,
  \<^verbatim>\<open>save_openai_analysis\<close> returns \<^verbatim>\<open>True\<close>; attaching a first and then a latest text gives the
  database that attaching the latest text alone gives, attaching the latest text once more
  changes nothing, the table keeps its length, every row with the attempt id is the old row
  with the latest text, every other row is the old row, and the other tables are unchanged.
\<close>

theorem record_then_attach:
  assumes "record_user_move user_id position_id move_id time_taken result now db = (r, db_recorded)"
    and "row = \<lparr>um_id = new_id, um_user_id = user_id, um_position_id = position_id,
                um_move_id = move_id, um_time_taken = time_taken, um_result = result,
                um_timestamp = now, um_openai_analysis = None\<rparr>"
    and "new_id = fold max (map um_id (user_moves db)) (user_moves_seq db) + 1"
    and "save_openai_analysis attempt_id first_text any_db = (r_first, db_first)"
    and "save_openai_analysis attempt_id latest_text db_first = (r_latest, db_latest)"
  shows "r = Inr new_id \<and> new_id \<notin> um_id ` set (user_moves db) \<and>
         user_moves db_recorded = user_moves db @ [row] \<and>
         positions db_recorded = positions db \<and> moves db_recorded = moves db \<and>
         user_settings db_recorded = user_settings db \<and>
         user_moves (snd (save_openai_analysis new_id latest_text
                            (snd (save_openai_analysis new_id first_text db_recorded)))) =
           user_moves db @ [row\<lparr>um_openai_analysis := Some latest_text\<rparr>] \<and>
         r_first = Inr True \<and> r_latest = Inr True \<and>
         db_latest = snd (save_openai_analysis attempt_id latest_text any_db) \<and>
         snd (save_openai_analysis attempt_id latest_text db_latest) = db_latest \<and>
         length (user_moves db_latest) = length (user_moves any_db) \<and>
         (\<forall>k<length (user_moves any_db).
            (um_id (user_moves any_db ! k) = attempt_id \<longrightarrow>
               user_moves db_latest ! k = (user_moves any_db ! k)\<lparr>um_openai_analysis := Some latest_text\<rparr>) \<and>
            (um_id (user_moves any_db ! k) \<noteq> attempt_id \<longrightarrow>
               user_moves db_latest ! k = user_moves any_db ! k)) \<and>
         positions db_latest = positions any_db \<and> moves db_latest = moves any_db \<and>
         user_settings db_latest = user_settings any_db \<and> user_moves_seq db_latest = user_moves_seq any_db"
proof -
  have fresh: "new_id \<notin> um_id ` set (user_moves db)"
    unfolding assms(3) by (rule lastrowid_fresh)
  have keep: "map (\<lambda>r. if um_id r = new_id
                      then r\<lparr>um_openai_analysis := Some t\<rparr> else r) (user_moves db) = user_moves db" for t
    using fresh by (rule attach_unchanged)
  from assms(1-3) have r: "r = Inr new_id"
    and db_recorded: "db_recorded = db\<lparr>user_moves := user_moves db @ [row], user_moves_seq := new_id\<rparr>"
    by (simp_all add: record_user_move_eq)
  have recorded: "r = Inr new_id \<and> new_id \<notin> um_id ` set (user_moves db) \<and>
         user_moves db_recorded = user_moves db @ [row] \<and>
         positions db_recorded = positions db \<and> moves db_recorded = moves db \<and>
         user_settings db_recorded = user_settings db \<and>
         user_moves (snd (save_openai_analysis new_id latest_text
                            (snd (save_openai_analysis new_id first_text db_recorded)))) =
           user_moves db @ [row\<lparr>um_openai_analysis := Some latest_text\<rparr>]"
    using fresh unfolding r db_recorded save_openai_analysis_eq
    by (simp add: keep assms(2))
  from assms(4) have r_first: "r_first = Inr True"
    and db_first: "db_first = any_db\<lparr>user_moves :=
            map (\<lambda>r. if um_id r = attempt_id then r\<lparr>um_openai_analysis := Some first_text\<rparr> else r)
                (user_moves any_db)\<rparr>"
    by (simp_all add: save_openai_analysis_eq)
  from assms(5) have r_latest: "r_latest = Inr True"
    and db_latest: "db_latest = db_first\<lparr>user_moves :=
            map (\<lambda>r. if um_id r = attempt_id then r\<lparr>um_openai_analysis := Some latest_text\<rparr> else r)
                (user_moves db_first)\<rparr>"
    by (simp_all add: save_openai_analysis_eq)
  have rows_latest: "user_moves db_latest =
            map (\<lambda>r. if um_id r = attempt_id then r\<lparr>um_openai_analysis := Some latest_text\<rparr> else r)
                (user_moves any_db)"
    unfolding db_latest db_first by (simp add: comp_def if_distrib cong: if_cong)
  have last_wins: "db_latest = snd (save_openai_analysis attempt_id latest_text any_db)"
    unfolding save_openai_analysis_eq using rows_latest by (simp add: db_latest db_first)
  have idem: "snd (save_openai_analysis attempt_id latest_text db_latest) = db_latest"
  proof -
    have "map (\<lambda>r. if um_id r = attempt_id then r\<lparr>um_openai_analysis := Some latest_text\<rparr> else r)
            (user_moves db_latest) = user_moves db_latest"
      unfolding rows_latest by (simp add: comp_def if_distrib cong: if_cong)
    then show ?thesis unfolding save_openai_analysis_eq by simp
  qed
  have rows: "\<forall>k<length (user_moves any_db).
            (um_id (user_moves any_db ! k) = attempt_id \<longrightarrow>
               user_moves db_latest ! k = (user_moves any_db ! k)\<lparr>um_openai_analysis := Some latest_text\<rparr>) \<and>
            (um_id (user_moves any_db ! k) \<noteq> attempt_id \<longrightarrow>
               user_moves db_latest ! k = user_moves any_db ! k)"
    unfolding rows_latest by simp
  have frame: "length (user_moves db_latest) = length (user_moves any_db) \<and>
         positions db_latest = positions any_db \<and> moves db_latest = moves any_db \<and>
         user_settings db_latest = user_settings any_db \<and> user_moves_seq db_latest = user_moves_seq any_db"
    unfolding rows_latest by (simp add: db_latest db_first)
  from recorded r_first r_latest last_wins idem rows frame show ?thesis by simp
qed

theorem record_then_attach_witness:
  "fst (record_user_move 7 1 3 5 ''fail'' ''2025-01-02 00:00:00'' example_db_attempted) = Inr 3 \<and>
   map um_id (user_moves (snd (record_user_move 7 1 3 5 ''fail'' ''2025-01-02 00:00:00''
                                  example_db_attempted))) = [1, 2, 3] \<and>
   map um_openai_analysis
     (user_moves (snd (save_openai_analysis 1 ''second''
                         (snd (save_openai_analysis 1 ''first'' example_db_attempted))))) =
     [Some ''second'', None]"
proof -
  have new: "3 = fold max (map um_id (user_moves example_db_attempted))
                   (user_moves_seq example_db_attempted) + 1"
    by (simp add: example_db_attempted_def example_attempt_def)
  have rows: "user_moves example_db_attempted = [example_attempt 1 7 1 1, example_attempt 2 7 2 1]"
    by (simp add: example_db_attempted_def)
  from record_then_attach [where user_id = 7 and position_id = 1 and move_id = 3
      and time_taken = 5 and result = "''fail''" and now = "''2025-01-02 00:00:00''"
      and db = example_db_attempted and new_id = 3 and attempt_id = 1
      and first_text = "''first''" and latest_text = "''second''" and any_db = example_db_attempted,
      OF prod.collapse [symmetric] refl new prod.collapse [symmetric] prod.collapse [symmetric]]
  have rec: "fst (record_user_move 7 1 3 5 ''fail'' ''2025-01-02 00:00:00'' example_db_attempted) = Inr 3"
    and app: "user_moves (snd (record_user_move 7 1 3 5 ''fail'' ''2025-01-02 00:00:00'' example_db_attempted)) =
       user_moves example_db_attempted @
         [\<lparr>um_id = 3, um_user_id = 7, um_position_id = 1, um_move_id = 3, um_time_taken = 5,
           um_result = ''fail'', um_timestamp = ''2025-01-02 00:00:00'', um_openai_analysis = None\<rparr>]"
    and len: "length (user_moves (snd (save_openai_analysis 1 ''second''
                         (snd (save_openai_analysis 1 ''first'' example_db_attempted))))) =
              length (user_moves example_db_attempted)"
    and each: "\<forall>k<length (user_moves example_db_attempted).
            (um_id (user_moves example_db_attempted ! k) = 1 \<longrightarrow>
               user_moves (snd (save_openai_analysis 1 ''second''
                         (snd (save_openai_analysis 1 ''first'' example_db_attempted)))) ! k =
               (user_moves example_db_attempted ! k)\<lparr>um_openai_analysis := Some ''second''\<rparr>) \<and>
            (um_id (user_moves example_db_attempted ! k) \<noteq> 1 \<longrightarrow>
               user_moves (snd (save_openai_analysis 1 ''second''
                         (snd (save_openai_analysis 1 ''first'' example_db_attempted)))) ! k =
               user_moves example_db_attempted ! k)"
    by blast+
  from each [rule_format, of 0] each [rule_format, of 1]
  have r0: "user_moves (snd (save_openai_analysis 1 ''second''
                         (snd (save_openai_analysis 1 ''first'' example_db_attempted)))) ! 0 =
            (example_attempt 1 7 1 1)\<lparr>um_openai_analysis := Some ''second''\<rparr>"
    and r_first: "user_moves (snd (save_openai_analysis 1 ''second''
                         (snd (save_openai_analysis 1 ''first'' example_db_attempted)))) ! 1 =
            example_attempt 2 7 2 1"
    by (simp_all add: rows example_attempt_def)
  have "user_moves (snd (save_openai_analysis 1 ''second''
                         (snd (save_openai_analysis 1 ''first'' example_db_attempted)))) =
        [(example_attempt 1 7 1 1)\<lparr>um_openai_analysis := Some ''second''\<rparr>, example_attempt 2 7 2 1]"
    using len r0 r_first by (intro nth_equalityI) (auto simp add: rows less_Suc_eq)
  with rec app show ?thesis by (simp add: rows example_attempt_def)
qed

section \<open>Validation against recording\<close>

text \<open>
  Claim C10. \<^verbatim>\<open>validate_move\<close> leaves the database as it found it, for every position id,
  move and user id: \<^verbatim>\<open>positions\<close>, \<^verbatim>\<open>moves\<close>, \<^verbatim>\<open>user_moves\<close>, \<^verbatim>\<open>user_settings\<close> and the id
  counter are all unchanged, so validating records no attempt. \<^verbatim>\<open>record_user_move\<close> is what
  adds a row to \<^verbatim>\<open>user_moves\<close>: one per call.
\<close>

theorem validate_move_read_only:
  "snd (validate_move position_id selected_move user_id db) = db \<and>
   length (user_moves (snd (record_user_move user_id position_id move_id time_taken result now db))) =
     Suc (length (user_moves db))"
  by (simp add: validate_move_def action_defs Let_def record_user_move_eq split: option.splits)

section \<open>Properties of the sequential selector\<close>

text \<open>
  The smallest id that \<^verbatim>\<open>MIN\<close> returns is an id of the list and below every other one.
  When the second query finds a position id that is not \<^verbatim>\<open>0\<close>, the selector returns what
  \<^verbatim>\<open>get_position_by_id\<close> returns for it; when it finds none, the third query raises.
\<close>

lemma sql_min_Some:
  "sql_min xs = Some m \<Longrightarrow> m \<in> set xs \<and> (\<forall>x\<in>set xs. m \<le> x)"
proof -
  have mem: "fold min ys y \<in> set (y # ys)" for y :: int and ys
    by (induction ys arbitrary: y) (auto simp add: min_def)
  have le_acc: "fold min ys y \<le> y" for y :: int and ys
    by (induction ys arbitrary: y) (auto intro: order_trans [OF _ min.cobounded2])
  have le: "x \<in> set ys \<Longrightarrow> fold min ys y \<le> x" for x y :: int and ys
  proof (induction ys arbitrary: y)
    case Nil
    then show ?case by simp
  next
    case (Cons a ys)
    show ?case
    proof (cases "x = a")
      case True
      have "fold min ys (min a y) \<le> min a y" by (rule le_acc)
      with True show ?thesis by simp
    next
      case False
      with Cons.prems have "x \<in> set ys" by simp
      then show ?thesis by (simp add: Cons.IH)
    qed
  qed
  assume "sql_min xs = Some m"
  then obtain y ys where xs: "xs = y # ys" and m: "m = fold min ys y"
    by (auto simp add: sql_min_def split: list.splits)
  show ?thesis
    unfolding xs m using mem [of ys y] le [of _ ys y] le_acc [of ys y] by auto
qed

lemma select_next_position_Some:
  assumes "select_next_position last_position_id db = Some n"
  shows "n \<in> pos_id ` set (positions db) \<and> last_position_id < n \<and>
         (\<forall>p\<in>set (positions db). last_position_id < pos_id p \<longrightarrow> n \<le> pos_id p)"
  using sql_min_Some [OF assms [unfolded select_next_position_def]] by auto

lemma get_sequential_position_wrap_raises:
  assumes "last_position_id = (case select_last_position user_id db of Some n \<Rightarrow> n | None \<Rightarrow> 0)"
    and "\<not> truthy (select_next_position last_position_id db)"
  shows "get_sequential_position loads user_id db = (Inl closed_database, db)"
proof -
  have last: "(if truthy (select_last_position user_id db)
               then (case select_last_position user_id db of Some n \<Rightarrow> n | None \<Rightarrow> 0) else 0) =
              last_position_id"
    unfolding assms(1) by (simp add: truthy_def split: option.splits)
  have none: "\<not> truthy None" by (simp add: truthy_def)
  show ?thesis
    using assms(2)
    by (simp add: get_sequential_position_def action_defs Let_def last none)
qed

lemma get_sequential_position_next:
  assumes "last_position_id = (case select_last_position user_id db of Some n \<Rightarrow> n | None \<Rightarrow> 0)"
    and "select_next_position last_position_id db = Some n" and "n \<noteq> 0"
  shows "get_sequential_position loads user_id db = get_position_by_id loads n db"
proof -
  have last: "(if truthy (select_last_position user_id db)
               then (case select_last_position user_id db of Some n \<Rightarrow> n | None \<Rightarrow> 0) else 0) =
              last_position_id"
    unfolding assms(1) by (simp add: truthy_def split: option.splits)
  have some: "truthy (Some n)" using assms(3) by (simp add: truthy_def)
  show ?thesis
    using assms(3)
    by (simp add: get_sequential_position_def action_defs Let_def last assms(2) some)
qed

text \<open>
  Claim C2. User 7 has attempted positions 1 and 2 of a catalog that holds positions 1 and
  2, so the highest attempted id is 2, no position has a larger id, and the smallest id of
  the catalog is 1. \<^verbatim>\<open>get_sequential_position\<close> does not return position 1: it raises
  \<^verbatim>\<open>sqlite3.ProgrammingError\<close>, because the query of the wrap-around runs after
  \<^verbatim>\<open>conn.close()\<close>. On an empty catalog it raises in the same way instead of returning
  \<^verbatim>\<open>None\<close>.
\<close>

theorem get_sequential_position_exhausted_raises:
  "select_last_position 7 example_db_attempted = Some 2 \<and>
   select_first_position example_db_attempted = Some 1 \<and>
   get_sequential_position example_loads 7 example_db_attempted =
     (Inl (ProgrammingError ''Cannot operate on a closed database.''), example_db_attempted) \<and>
   get_sequential_position example_loads 7 (example_db\<lparr>positions := []\<rparr>) =
     (Inl (ProgrammingError ''Cannot operate on a closed database.''), example_db\<lparr>positions := []\<rparr>)"
proof -
  have last: "select_last_position 7 example_db_attempted = Some 2"
    by (simp add: select_last_position_def example_db_attempted_def example_attempt_def sql_max_def)
  have first: "select_first_position example_db_attempted = Some 1"
    by (simp add: select_first_position_def example_db_attempted_def example_db_def
          example_position_def sql_min_def)
  have "\<not> truthy (select_next_position 2 example_db_attempted)"
    by (simp add: select_next_position_def example_db_attempted_def example_db_def
          example_position_def sql_min_def truthy_def)
  with last have a: "get_sequential_position example_loads 7 example_db_attempted =
     (Inl closed_database, example_db_attempted)"
    by (intro get_sequential_position_wrap_raises [where last_position_id = 2]) simp_all
  have "\<not> truthy (select_next_position
            (case select_last_position 7 (example_db\<lparr>positions := []\<rparr>) of Some n \<Rightarrow> n | None \<Rightarrow> 0)
            (example_db\<lparr>positions := []\<rparr>))"
    by (simp add: select_next_position_def sql_min_def truthy_def)
  then have b: "get_sequential_position example_loads 7 (example_db\<lparr>positions := []\<rparr>) =
     (Inl closed_database, example_db\<lparr>positions := []\<rparr>)"
    by (intro get_sequential_position_wrap_raises [OF refl])
  from last first a b show ?thesis by (simp add: closed_database_def)
qed
section \<open>Properties of submitting a move\<close>








lemma find_move_id_eq:
  "find_move_id position_id move db =
     (Inr (case select_move position_id move db of Some r \<Rightarrow> Some (mv_id r) | None \<Rightarrow> None), db)"
  by (simp add: find_move_id_def action_defs Let_def)




end
